theory Spec2Isabelle
  imports Complex_Main "HOL-Library.Multiset"
begin

section \<open>Controller input (class \<open>XInput\<close> of main.pyw)\<close>

subsection \<open>Data\<close>

text \<open>
  \<open>XInput.MappedStates\<close>: the dataclass holding one controller snapshot. Its fields are
  Python ints and bools; the defaults are those of the dataclass.
\<close>

record MappedStates =
  PacketNumber :: int
  LeftTrigger :: int
  RightTrigger :: int
  ThumbLX :: int
  ThumbLY :: int
  ThumbRX :: int
  ThumbRY :: int
  DpadUp :: bool
  DpadDown :: bool
  DpadLeft :: bool
  DpadRight :: bool
  Start :: bool
  Back :: bool
  LeftThumb :: bool
  RightThumb :: bool
  LeftShoulder :: bool
  RightShoulder :: bool
  A :: bool
  B :: bool
  X :: bool
  Y :: bool

definition MappedStates_default :: MappedStates where
  "MappedStates_default =
     \<lparr>PacketNumber = 0, LeftTrigger = 0, RightTrigger = 0,
      ThumbLX = 0, ThumbLY = 0, ThumbRX = 0, ThumbRY = 0,
      DpadUp = False, DpadDown = False, DpadLeft = False, DpadRight = False,
      Start = False, Back = False, LeftThumb = False, RightThumb = False,
      LeftShoulder = False, RightShoulder = False,
      A = False, B = False, X = False, Y = False\<rparr>"

text \<open>
  \<open>XInput.Event\<close>: a dataclass of two strings, \<open>type\<close> in press / release / any and
  \<open>key\<close> in LeftTrigger / RightTrigger / Any. Python does not enforce the \<open>Literal\<close>
  annotation, so the fields are plain strings here as well.
\<close>

record Event =
  type :: string
  key :: string

definition mk_Event :: "string \<Rightarrow> string \<Rightarrow> Event" where
  "mk_Event t k = \<lparr>type = t, key = k\<rparr>"

text \<open>\<open>Event.__eq__\<close>, the operator behind \<open>callback[0] == event\<close>.\<close>

definition Event_eq :: "Event \<Rightarrow> Event \<Rightarrow> bool" where
  "Event_eq self other \<longleftrightarrow>
     (type self = type other \<or> type self = ''any'' \<or> type other = ''any'') \<and>
     (key self = key other \<or> key self = ''Any'' \<or> key other = ''Any'')"

text \<open>
  Exceptions that can cross the modelled code. A call that raises leaves the mutations
  made so far in place, so a stateful operation returns the exception (if any) together
  with the state at that moment.
\<close>

datatype exn = ValueError | OSError | ClipboardError | AttributeError | OverflowError

text \<open>
  The state of an \<open>XInput\<close> object. The handlers act on the state \<open>'w\<close> of whoever
  registered them (the application); none of them touches the \<open>XInput\<close> object itself.
\<close>

record 'w XInput =
  prev_states :: MappedStates
  event_queue :: "Event list"
  registered_callbacks :: "(Event \<times> (MappedStates \<Rightarrow> 'w \<Rightarrow> exn option \<times> 'w)) list"

text \<open>\<open>XInput.__init__\<close>: \<open>register_callback\<close> appends each given callback in turn.\<close>

definition XInput_init ::
  "(Event \<times> (MappedStates \<Rightarrow> 'w \<Rightarrow> exn option \<times> 'w)) list \<Rightarrow> 'w XInput" where
  "XInput_init registering_callbacks =
     \<lparr>prev_states = MappedStates_default, event_queue = [],
      registered_callbacks = registering_callbacks\<rparr>"

subsection \<open>Translating snapshots into events\<close>

text \<open>\<open>XInput.__update_states\<close>.\<close>

definition update_states :: "'w XInput \<Rightarrow> MappedStates \<Rightarrow> 'w XInput" where
  "update_states self new_states =
     (if PacketNumber (prev_states self) = PacketNumber new_states then self
      else
        let q0 = event_queue self;
            q1 = (if LeftTrigger (prev_states self) \<noteq> LeftTrigger new_states then
                    (if LeftTrigger new_states = 255 then q0 @ [mk_Event ''press'' ''LeftTrigger'']
                     else if LeftTrigger new_states = 0 then q0 @ [mk_Event ''release'' ''LeftTrigger'']
                     else q0)
                  else q0);
            q2 = (if RightTrigger (prev_states self) \<noteq> RightTrigger new_states then
                    (if RightTrigger new_states = 255 then q1 @ [mk_Event ''press'' ''RightTrigger'']
                     else if RightTrigger new_states = 0 then q1 @ [mk_Event ''release'' ''RightTrigger'']
                     else q1)
                  else q1)
        in self\<lparr>event_queue := q2, prev_states := new_states\<rparr>)"

text \<open>
  The events one call puts on the queue, seen from an object whose queue is empty: the
  spec's \<open>translate(previous, current)\<close>.
\<close>

definition translate :: "MappedStates \<Rightarrow> MappedStates \<Rightarrow> Event list" where
  "translate previous current =
     event_queue (update_states
       (\<lparr>prev_states = previous, event_queue = [], registered_callbacks = []\<rparr> :: unit XInput)
       current)"

subsection \<open>Dispatching events\<close>

text \<open>
  The inner \<open>for callback in self.__registered_callbacks\<close> loop of \<open>__handle_events\<close>:
  every callback whose pattern equals the event is called with the stored snapshot; an
  exception of a handler ends the loop.
\<close>

fun run_callbacks ::
  "(Event \<times> (MappedStates \<Rightarrow> 'w \<Rightarrow> exn option \<times> 'w)) list \<Rightarrow> Event \<Rightarrow> MappedStates \<Rightarrow> 'w
     \<Rightarrow> exn option \<times> 'w" where
  "run_callbacks [] event states w = (None, w)"
| "run_callbacks (callback # rest) event states w =
     (if Event_eq (fst callback) event then
        (case snd callback states w of
           (None, w') \<Rightarrow> run_callbacks rest event states w'
         | (Some e, w') \<Rightarrow> (Some e, w'))
      else run_callbacks rest event states w)"

text \<open>
  The outer \<open>while event := self.__event_queue.get_nowait()\<close> loop: an \<open>Event\<close> object is
  always truthy, so the loop runs until the queue raises \<open>Empty\<close>, which is caught. The
  event being handled has already left the queue when a handler raises.
\<close>

fun drain_queue ::
  "(Event \<times> (MappedStates \<Rightarrow> 'w \<Rightarrow> exn option \<times> 'w)) list \<Rightarrow> MappedStates \<Rightarrow> Event list \<Rightarrow> 'w
     \<Rightarrow> exn option \<times> Event list \<times> 'w" where
  "drain_queue callbacks states [] w = (None, [], w)"
| "drain_queue callbacks states (event # queue) w =
     (case run_callbacks callbacks event states w of
        (None, w') \<Rightarrow> drain_queue callbacks states queue w'
      | (Some e, w') \<Rightarrow> (Some e, queue, w'))"

text \<open>\<open>XInput.__handle_events\<close>.\<close>

definition handle_events :: "'w XInput \<Rightarrow> 'w \<Rightarrow> exn option \<times> 'w XInput \<times> 'w" where
  "handle_events self w =
     (case drain_queue (registered_callbacks self) (prev_states self) (event_queue self) w of
        (r, queue, w') \<Rightarrow> (r, self\<lparr>event_queue := queue\<rparr>, w'))"

text \<open>
  \<open>XInput.update\<close>. The argument \<open>polled\<close> is what \<open>self.poll()\<close> returned: a snapshot, or
  \<open>None\<close> when \<open>XInputGetState\<close> reports no controller. A snapshot object is always truthy.
\<close>

definition update :: "'w XInput \<Rightarrow> MappedStates option \<Rightarrow> 'w \<Rightarrow> exn option \<times> 'w XInput \<times> 'w" where
  "update self polled w =
     handle_events (case polled of Some new_states \<Rightarrow> update_states self new_states | None \<Rightarrow> self) w"

section \<open>The bounded history (class \<open>App\<close> of main.pyw)\<close>

subsection \<open>\<open>collections.deque\<close> with a \<open>maxlen\<close>\<close>

text \<open>
  The history is a \<open>collections.deque\<close> of the Python library, always built with a
  \<open>maxlen\<close>. The operations below follow the library reference: \<open>append\<close> adds on the
  right and, when the bound is exceeded, discards from the left; the constructor appends
  the elements of the iterable one by one; \<open>remove\<close> deletes the first element equal to
  its argument and raises \<open>ValueError\<close> when there is none; \<open>rotate(n)\<close> moves the last
  element to the front \<open>n\<close> times, or for negative \<open>n\<close> the first element to the back
  \<open>-n\<close> times, and does nothing on an empty deque. \<open>rotate\<close> first converts its argument
  to a C \<open>ssize_t\<close> (64 bits on the builds considered here) and raises \<open>OverflowError\<close>,
  with the deque untouched, when the Python int does not fit.
\<close>

record 'a deque =
  items :: "'a list"
  maxlen :: nat

definition deque_append :: "'a \<Rightarrow> 'a deque \<Rightarrow> 'a deque" where
  "deque_append x dq =
     (let xs = items dq @ [x]
      in dq\<lparr>items := (if maxlen dq < length xs then tl xs else xs)\<rparr>)"

definition deque_init :: "'a list \<Rightarrow> nat \<Rightarrow> 'a deque" where
  "deque_init iterable m = fold deque_append iterable \<lparr>items = [], maxlen = m\<rparr>"

definition deque_remove :: "'a \<Rightarrow> 'a deque \<Rightarrow> exn + 'a deque" where
  "deque_remove x dq =
     (if x \<in> set (items dq) then Inr (dq\<lparr>items := remove1 x (items dq)\<rparr>)
      else Inl ValueError)"

definition rotate_right1 :: "'a list \<Rightarrow> 'a list" where
  "rotate_right1 xs = (case xs of [] \<Rightarrow> [] | _ # _ \<Rightarrow> last xs # butlast xs)"

definition rotate_steps :: "int \<Rightarrow> 'a deque \<Rightarrow> 'a deque" where
  "rotate_steps n dq =
     (if items dq = [] then dq
      else if 0 \<le> n then dq\<lparr>items := (rotate_right1 ^^ nat n) (items dq)\<rparr>
      else dq\<lparr>items := (rotate1 ^^ nat (- n)) (items dq)\<rparr>)"

definition PY_SSIZE_T_MIN :: int where
  "PY_SSIZE_T_MIN = - (2 ^ 63)"

definition PY_SSIZE_T_MAX :: int where
  "PY_SSIZE_T_MAX = 2 ^ 63 - 1"

definition deque_rotate :: "int \<Rightarrow> 'a deque \<Rightarrow> exn + 'a deque" where
  "deque_rotate n dq =
     (if n < PY_SSIZE_T_MIN \<or> PY_SSIZE_T_MAX < n then Inl OverflowError
      else Inr (rotate_steps n dq))"

subsection \<open>Insertion that spares pinned items\<close>

text \<open>
  \<open>App.deque_append_with_predicate\<close>. The \<open>for ... else\<close> loop looks for the first object
  with a false predicate; \<open>break\<close> follows the removal at once, and the \<open>else\<close> branch
  (no such object) returns without appending.
\<close>

definition deque_append_with_predicate ::
  "'a deque \<Rightarrow> 'a \<Rightarrow> ('a \<Rightarrow> bool) \<Rightarrow> exn + 'a deque" where
  "deque_append_with_predicate dq object predicate =
     (if length (items dq) = maxlen dq then
        (case find (\<lambda>x. \<not> predicate x) (items dq) of
           None \<Rightarrow> Inr dq
         | Some victim \<Rightarrow>
             (case deque_remove victim dq of
                Inl e \<Rightarrow> Inl e
              | Inr dq' \<Rightarrow> Inr (deque_append object dq')))
      else Inr (deque_append object dq))"

text \<open>
  \<open>App.deque_extend_with_predicate\<close>: the deque is mutated in place, so what was inserted
  before an exception stays.
\<close>

fun deque_extend_with_predicate ::
  "'a deque \<Rightarrow> 'a list \<Rightarrow> ('a \<Rightarrow> bool) \<Rightarrow> exn option \<times> 'a deque" where
  "deque_extend_with_predicate dq [] predicate = (None, dq)"
| "deque_extend_with_predicate dq (object # rest) predicate =
     (case deque_append_with_predicate dq object predicate of
        Inl e \<Rightarrow> (Some e, dq)
      | Inr dq' \<Rightarrow> deque_extend_with_predicate dq' rest predicate)"

subsection \<open>The application state\<close>

text \<open>An image is opaque here; the number stands for its pixels.\<close>

datatype Image = Pixels nat

text \<open>
  \<open>ImageComposite\<close>: the display name, the image and the pin flag (a \<open>BooleanVar\<close>, false
  when created). The thumbnail \<open>viewmage\<close> is a function of the image and is left out;
  \<open>filename\<close> is the name after \<open>os.path\<close> has stripped directory and extension, which
  a name built by \<open>_command_action_take\<close> from the \<open>strftime\<close> text (digits,
  underscores and a blank) does not have; the name is stored as given, so the names of
  loaded files are not modelled. Python compares these objects by identity; where
  \<open>remove\<close> is called on the first unpinned item found by a scan, the first equal item is
  the one the scan found, and elsewhere an object is named by its position.
\<close>

record ImageComposite =
  filename :: string
  truemage :: Image
  pinnation :: bool

definition ImageComposite_init :: "Image \<Rightarrow> string \<Rightarrow> ImageComposite" where
  "ImageComposite_init img name = \<lparr>filename = name, truemage = img, pinnation = False\<rparr>"

text \<open>
  What the surroundings answer during one callback: the reading of \<open>time()\<close>, the result
  of \<open>ImageGrab.grab()\<close> (\<open>None\<close> when it raises \<open>OSError\<close>), whether the clipboard can
  be opened, and the text of \<open>datetimenow()\<close>.
\<close>

record World =
  clock :: real
  screen :: "Image option"
  clipboard_free :: bool
  datetimenow :: string

text \<open>What the application does to its surroundings, in order.\<close>

datatype effect = Beep | Grab Image | Copy Image

text \<open>
  The fields of \<open>App\<close> that the modelled methods read or write, the pending \<open>after\<close>
  timers of Tk (\<open>after\<close> hands out a fresh identifier per call), the surroundings and
  the trace of effects. The \<open>XInput\<close> object is kept beside this record, since its
  handlers act on it.
\<close>

record App =
  images :: "ImageComposite deque"
  deque_collect_limit :: nat
  copy_upon_take :: bool
  xinput_poll :: bool
  xinput_polling_id :: "nat option"
  xinput_take_cooldown :: real
  xinput_last_time :: real
  after_pending :: "nat list"
  after_count :: nat
  world :: World
  effects :: "effect list"

text \<open>
  \<open>Constants.LIMIT\<close> and \<open>Constants.DELAY\<close>. Times are Python floats; a float is modelled
  as the real number it denotes and the difference of two times as the exact one, so
  \<open>DELAY\<close> is the double nearest to 0.15, which is 5404319552844595 / 2^55.
\<close>

definition LIMIT :: nat where
  "LIMIT = 256"

definition DELAY :: real where
  "DELAY = 5404319552844595 / 36028797018963968"

text \<open>The part of \<open>App.__init__\<close> that sets these fields.\<close>

definition App_init :: "World \<Rightarrow> App" where
  "App_init w =
     \<lparr>images = deque_init [] LIMIT, deque_collect_limit = LIMIT, copy_upon_take = True,
      xinput_poll = False, xinput_polling_id = None, xinput_take_cooldown = DELAY,
      xinput_last_time = clock w, after_pending = [], after_count = 0, world = w,
      effects = []\<rparr>"

text \<open>\<open>App._reset_images\<close>.\<close>

definition reset_images :: "ImageComposite list \<Rightarrow> App \<Rightarrow> App" where
  "reset_images imgs self = self\<lparr>images := deque_init imgs (deque_collect_limit self)\<rparr>"

text \<open>
  \<open>App._remove_collected_image\<close>. The argument is the object a label shows; objects are
  compared by identity and each is in the history at most once, so the object is given
  by its position \<open>i\<close>, and a position outside the history stands for an object that
  is not in it, for which \<open>remove\<close> raises \<open>ValueError\<close>.
\<close>

definition remove_collected_image :: "nat \<Rightarrow> App \<Rightarrow> exn option \<times> App" where
  "remove_collected_image i self =
     (if i < length (items (images self)) then
        (None, self\<lparr>images := (images self)\<lparr>items :=
           take i (items (images self)) @ drop (Suc i) (items (images self))\<rparr>\<rparr>)
      else (Some ValueError, self))"

text \<open>
  \<open>App._command_view_rotate\<close>, \<open>_command_view_rrotate\<close> and \<open>_command_view_nrotate\<close>;
  \<open>answer\<close> is what the dialog returned (\<open>None\<close> when cancelled, otherwise any Python
  int: the dialog is given no bounds), and \<open>answer or 0\<close> turns \<open>None\<close> into 0. An
  exception of \<open>rotate\<close> leaves the method with the history as it was.
\<close>

definition command_view_rotate :: "App \<Rightarrow> exn option \<times> App" where
  "command_view_rotate self =
     (case deque_rotate 1 (images self) of
        Inl e \<Rightarrow> (Some e, self)
      | Inr dq \<Rightarrow> (None, self\<lparr>images := dq\<rparr>))"

definition command_view_rrotate :: "App \<Rightarrow> exn option \<times> App" where
  "command_view_rrotate self =
     (case deque_rotate (- 1) (images self) of
        Inl e \<Rightarrow> (Some e, self)
      | Inr dq \<Rightarrow> (None, self\<lparr>images := dq\<rparr>))"

definition command_view_nrotate :: "int option \<Rightarrow> App \<Rightarrow> exn option \<times> App" where
  "command_view_nrotate answer self =
     (case deque_rotate (case answer of None \<Rightarrow> 0 | Some n \<Rightarrow> n) (images self) of
        Inl e \<Rightarrow> (Some e, self)
      | Inr dq \<Rightarrow> (None, self\<lparr>images := dq\<rparr>))"

text \<open>\<open>App._command_view_remove_all\<close>.\<close>

definition command_view_remove_all :: "App \<Rightarrow> App" where
  "command_view_remove_all self = reset_images (filter pinnation (items (images self))) self"

text \<open>
  \<open>App._command_option_set_deque_limit\<close>; \<open>answer\<close> is what the dialog returned, a
  number from 1 to 256 or \<open>None\<close>, and \<open>answer or limit\<close> keeps the old limit for \<open>None\<close>
  (and for 0, which is falsy).
\<close>

definition command_option_set_deque_limit :: "nat option \<Rightarrow> App \<Rightarrow> App" where
  "command_option_set_deque_limit answer self =
     (let self1 = self\<lparr>deque_collect_limit :=
                    (case answer of
                       None \<Rightarrow> deque_collect_limit self
                     | Some n \<Rightarrow> if n = 0 then deque_collect_limit self else n)\<rparr>
      in reset_images (items (images self1)) self1)"

text \<open>The \<open>Pin?\<close> entry of a label's context menu flips the flag of the image shown.\<close>

definition toggle_pin :: "nat \<Rightarrow> App \<Rightarrow> App" where
  "toggle_pin i self =
     (if i < length (items (images self)) then
        self\<lparr>images := (images self)\<lparr>items := (items (images self))
          [i := (items (images self) ! i)\<lparr>pinnation := \<not> pinnation (items (images self) ! i)\<rparr>]\<rparr>\<rparr>
      else self)"

text \<open>\<open>App.add_image\<close> and \<open>App.add_images\<close>.\<close>

definition add_image :: "Image \<Rightarrow> string \<Rightarrow> App \<Rightarrow> exn option \<times> App" where
  "add_image img name self =
     (case deque_append_with_predicate (images self) (ImageComposite_init img name) pinnation of
        Inl e \<Rightarrow> (Some e, self)
      | Inr dq \<Rightarrow> (None, self\<lparr>images := dq\<rparr>))"

definition add_images :: "(Image \<times> string) list \<Rightarrow> App \<Rightarrow> exn option \<times> App" where
  "add_images imgs self =
     (case deque_extend_with_predicate (images self)
             (map (\<lambda>(img, name). ImageComposite_init img name) imgs) pinnation of
        (r, dq) \<Rightarrow> (r, self\<lparr>images := dq\<rparr>))"

text \<open>\<open>App.copy_image\<close>: opening the clipboard fails when another program holds it.\<close>

definition copy_image :: "Image \<Rightarrow> App \<Rightarrow> exn option \<times> App" where
  "copy_image img self =
     (if clipboard_free (world self) then (None, self\<lparr>effects := effects self @ [Copy img]\<rparr>)
      else (Some ClipboardError, self))"

text \<open>\<open>App._command_action_take\<close>.\<close>

definition command_action_take :: "App \<Rightarrow> exn option \<times> App" where
  "command_action_take self =
     (case screen (world self) of
        None \<Rightarrow> (Some OSError, self)
      | Some img \<Rightarrow>
          (case (if copy_upon_take self
                 then copy_image img (self\<lparr>effects := effects self @ [Grab img]\<rparr>)
                 else (None, self\<lparr>effects := effects self @ [Grab img]\<rparr>)) of
             (Some e, self1) \<Rightarrow> (Some e, self1)
           | (None, self1) \<Rightarrow> add_image img (''PrtSc '' @ datetimenow (world self1)) self1))"

text \<open>\<open>App._xinput_ltrt_command_action_take\<close>, the handler registered for both triggers.\<close>

definition xinput_ltrt_command_action_take :: "MappedStates \<Rightarrow> App \<Rightarrow> exn option \<times> App" where
  "xinput_ltrt_command_action_take states self =
     (if clock (world self) - xinput_last_time self < xinput_take_cooldown self then (None, self)
      else if LeftTrigger states \<noteq> 255 \<or> RightTrigger states \<noteq> 255 then (None, self)
      else
        (case command_action_take (self\<lparr>effects := effects self @ [Beep]\<rparr>) of
           (Some e, self1) \<Rightarrow> (Some e, self1)
         | (None, self1) \<Rightarrow> (None, self1\<lparr>xinput_last_time := clock (world self1)\<rparr>)))"

text \<open>The \<open>XInput\<close> object that \<open>App.__init__\<close> builds.\<close>

definition App_xinput :: "App XInput" where
  "App_xinput =
     XInput_init
       [(mk_Event ''press'' ''LeftTrigger'', xinput_ltrt_command_action_take),
        (mk_Event ''press'' ''RightTrigger'', xinput_ltrt_command_action_take)]"

text \<open>
  \<open>App.__poll_for_xinput\<close>, on the pair of the application and its \<open>XInput\<close> object.
  \<open>after_cancel\<close> forgets the timer named by \<open>__xinput_polling_id\<close>, an attribute that
  exists only once a poll has been scheduled; an exception in \<open>update\<close> leaves before the
  next poll is scheduled.
\<close>

definition poll_for_xinput ::
  "MappedStates option \<Rightarrow> App \<times> App XInput \<Rightarrow> exn option \<times> App \<times> App XInput" where
  "poll_for_xinput polled = (\<lambda>(self, xinput).
     if \<not> xinput_poll self then
       (case xinput_polling_id self of
          None \<Rightarrow> (Some AttributeError, self, xinput)
        | Some i \<Rightarrow> (None, self\<lparr>after_pending := removeAll i (after_pending self)\<rparr>, xinput))
     else
       (case update xinput polled self of
          (Some e, xinput', self') \<Rightarrow> (Some e, self', xinput')
        | (None, xinput', self') \<Rightarrow>
            (None,
             self'\<lparr>xinput_polling_id := Some (after_count self'),
                   after_pending := after_pending self' @ [after_count self'],
                   after_count := Suc (after_count self')\<rparr>,
             xinput')))"

text \<open>
  The two ways \<open>__poll_for_xinput\<close> is entered: the \<open>LT/RT take?\<close> check button flips
  \<open>_xinput_poll\<close> and calls it; a pending timer fires and calls it.
\<close>

definition toggle_xinput_poll ::
  "MappedStates option \<Rightarrow> App \<times> App XInput \<Rightarrow> exn option \<times> App \<times> App XInput" where
  "toggle_xinput_poll polled = (\<lambda>(self, xinput).
     poll_for_xinput polled (self\<lparr>xinput_poll := \<not> xinput_poll self\<rparr>, xinput))"

definition timer_fires ::
  "MappedStates option \<Rightarrow> App \<times> App XInput \<Rightarrow> exn option \<times> App \<times> App XInput" where
  "timer_fires polled = (\<lambda>(self, xinput).
     (case after_pending self of
        [] \<Rightarrow> (None, self, xinput)
      | i # rest \<Rightarrow> poll_for_xinput polled (self\<lparr>after_pending := rest\<rparr>, xinput)))"

text \<open>
  The states the application can be in between two callbacks, as far as the history is
  concerned: every modelled command, with any argument and any answer of the
  surroundings, whether it returns or raises.
\<close>

inductive reachable :: "App \<Rightarrow> bool" where
  r_init: "reachable (App_init w)"
| r_world: "reachable a \<Longrightarrow> reachable (a\<lparr>world := w\<rparr>)"
| r_add_image: "reachable a \<Longrightarrow> add_image img name a = (r, a') \<Longrightarrow> reachable a'"
| r_add_images: "reachable a \<Longrightarrow> add_images imgs a = (r, a') \<Longrightarrow> reachable a'"
| r_take: "reachable a \<Longrightarrow> command_action_take a = (r, a') \<Longrightarrow> reachable a'"
| r_xinput_take: "reachable a \<Longrightarrow> xinput_ltrt_command_action_take states a = (r, a') \<Longrightarrow> reachable a'"
| r_remove: "reachable a \<Longrightarrow> remove_collected_image j a = (r, a') \<Longrightarrow> reachable a'"
| r_rotate: "reachable a \<Longrightarrow> command_view_rotate a = (r, a') \<Longrightarrow> reachable a'"
| r_rrotate: "reachable a \<Longrightarrow> command_view_rrotate a = (r, a') \<Longrightarrow> reachable a'"
| r_nrotate: "reachable a \<Longrightarrow> command_view_nrotate answer a = (r, a') \<Longrightarrow> reachable a'"
| r_remove_all: "reachable a \<Longrightarrow> reachable (command_view_remove_all a)"
| r_set_limit: "reachable a \<Longrightarrow> reachable (command_option_set_deque_limit answer' a)"
| r_toggle_pin: "reachable a \<Longrightarrow> reachable (toggle_pin i a)"

text \<open>
  The Tk main loop runs one callback after the other; an exception that leaves a callback
  is reported and the loop goes on with the state as the callback left it. A run is given
  by the callbacks in order, each with what the surroundings answer while it runs: the
  world and the result of \<open>poll()\<close>.
\<close>

datatype callback = Toggle_poll | Timer

fun mainloop ::
  "(World \<times> MappedStates option \<times> callback) list \<Rightarrow> App \<times> App XInput \<Rightarrow> App \<times> App XInput" where
  "mainloop [] s = s"
| "mainloop ((w, polled, cb) # rest) (self, xinput) =
     mainloop rest
       (snd ((case cb of Toggle_poll \<Rightarrow> toggle_xinput_poll polled | Timer \<Rightarrow> timer_fires polled)
               (self\<lparr>world := w\<rparr>, xinput)))"

section \<open>Properties of the controller input\<close>

text \<open>
  Claim C6. Event matching is wildcard-aware and symmetric: two events match exactly when
  their types are equal or one of them is \<open>any\<close>, and their keys are equal or one of them
  is \<open>Any\<close>. The pattern (any, Any) matches every event; (press, Any) matches a press of
  either trigger and does not match the release of the left trigger.
\<close>

theorem Event_eq_wildcards:
  "(Event_eq p e \<longleftrightarrow>
      (type p = type e \<or> type p = ''any'' \<or> type e = ''any'') \<and>
      (key p = key e \<or> key p = ''Any'' \<or> key e = ''Any'')) \<and>
   (Event_eq p e \<longleftrightarrow> Event_eq e p) \<and>
   Event_eq (mk_Event ''any'' ''Any'') e \<and>
   Event_eq (mk_Event ''press'' ''Any'') (mk_Event ''press'' ''LeftTrigger'') \<and>
   Event_eq (mk_Event ''press'' ''Any'') (mk_Event ''press'' ''RightTrigger'') \<and>
   \<not> Event_eq (mk_Event ''press'' ''Any'') (mk_Event ''release'' ''LeftTrigger'')"
  by (auto simp: Event_eq_def mk_Event_def)

text \<open>
  Claim C2. When the new snapshot carries the packet number of the stored one, no event
  is produced, whatever the trigger values of the two snapshots are: the queue stays as
  it was, and \<open>translate\<close> yields the empty sequence.
\<close>

theorem stale_packet_no_events:
  "PacketNumber (prev_states self) = PacketNumber new_states \<Longrightarrow>
     event_queue (update_states self new_states) = event_queue self \<and>
     translate (prev_states self) new_states = []"
  by (simp add: translate_def update_states_def)

theorem stale_packet_no_events_witness:
  "PacketNumber (prev_states ((XInput_init [] :: unit XInput)\<lparr>event_queue := [mk_Event ''press'' ''LeftTrigger'']\<rparr>))
     = PacketNumber (MappedStates_default\<lparr>LeftTrigger := 255, RightTrigger := 17\<rparr>) \<and>
   event_queue (update_states
       ((XInput_init [] :: unit XInput)\<lparr>event_queue := [mk_Event ''press'' ''LeftTrigger'']\<rparr>)
       (MappedStates_default\<lparr>LeftTrigger := 255, RightTrigger := 17\<rparr>))
     = [mk_Event ''press'' ''LeftTrigger''] \<and>
   translate MappedStates_default (MappedStates_default\<lparr>LeftTrigger := 255, RightTrigger := 17\<rparr>) = []"
  using stale_packet_no_events
    [of "(XInput_init [] :: unit XInput)\<lparr>event_queue := [mk_Event ''press'' ''LeftTrigger'']\<rparr>"
        "MappedStates_default\<lparr>LeftTrigger := 255, RightTrigger := 17\<rparr>"]
  by (simp add: XInput_init_def MappedStates_default_def)

text \<open>
  Claim C3. When the packet numbers differ, the call appends to the queue first what the
  left trigger gives and then what the right trigger gives, and each trigger on its own
  gives: one press event when its value changed and is now 255, one release event when
  its value changed and is now 0, and nothing otherwise (so nothing for a new value from
  1 to 254).
\<close>

theorem trigger_edges:
  "PacketNumber (prev_states self) \<noteq> PacketNumber new_states \<Longrightarrow>
   event_queue (update_states self new_states) =
     event_queue self
     @ (if LeftTrigger (prev_states self) \<noteq> LeftTrigger new_states
            \<and> LeftTrigger new_states = 255
        then [mk_Event ''press'' ''LeftTrigger'']
        else if LeftTrigger (prev_states self) \<noteq> LeftTrigger new_states
            \<and> LeftTrigger new_states = 0
        then [mk_Event ''release'' ''LeftTrigger'']
        else [])
     @ (if RightTrigger (prev_states self) \<noteq> RightTrigger new_states
            \<and> RightTrigger new_states = 255
        then [mk_Event ''press'' ''RightTrigger'']
        else if RightTrigger (prev_states self) \<noteq> RightTrigger new_states
            \<and> RightTrigger new_states = 0
        then [mk_Event ''release'' ''RightTrigger'']
        else [])"
  by (simp add: update_states_def Let_def)

theorem trigger_edges_witness:
  "PacketNumber (prev_states (XInput_init [] :: unit XInput))
     \<noteq> PacketNumber (MappedStates_default\<lparr>PacketNumber := 1, LeftTrigger := 255, RightTrigger := 255\<rparr>) \<and>
   event_queue (update_states (XInput_init [] :: unit XInput)
       (MappedStates_default\<lparr>PacketNumber := 1, LeftTrigger := 255, RightTrigger := 255\<rparr>))
     = [mk_Event ''press'' ''LeftTrigger'', mk_Event ''press'' ''RightTrigger''] \<and>
   PacketNumber (prev_states ((XInput_init [] :: unit XInput)
       \<lparr>prev_states := MappedStates_default\<lparr>LeftTrigger := 255, RightTrigger := 40\<rparr>\<rparr>))
     \<noteq> PacketNumber (MappedStates_default\<lparr>PacketNumber := 2, LeftTrigger := 0, RightTrigger := 254\<rparr>) \<and>
   event_queue (update_states ((XInput_init [] :: unit XInput)
       \<lparr>prev_states := MappedStates_default\<lparr>LeftTrigger := 255, RightTrigger := 40\<rparr>\<rparr>)
       (MappedStates_default\<lparr>PacketNumber := 2, LeftTrigger := 0, RightTrigger := 254\<rparr>))
     = [mk_Event ''release'' ''LeftTrigger'']"
  using trigger_edges
    [of "XInput_init [] :: unit XInput"
        "MappedStates_default\<lparr>PacketNumber := 1, LeftTrigger := 255, RightTrigger := 255\<rparr>"]
    trigger_edges
    [of "(XInput_init [] :: unit XInput)
           \<lparr>prev_states := MappedStates_default\<lparr>LeftTrigger := 255, RightTrigger := 40\<rparr>\<rparr>"
        "MappedStates_default\<lparr>PacketNumber := 2, LeftTrigger := 0, RightTrigger := 254\<rparr>"]
  by (simp add: XInput_init_def MappedStates_default_def)

text \<open>
  Claim C8, as the spec states it, fails: a call whose snapshot carries the stored packet
  number returns before the assignment to \<open>__prev_states\<close>. Here the stored snapshot is
  the initial one (packet number 0, triggers at 0) and the new one has packet number 0
  and the left trigger at 255; after the call the stored snapshot is not the new one.
\<close>

theorem prev_states_not_advanced_counterexample:
  "prev_states (update_states (XInput_init [] :: unit XInput)
       (MappedStates_default\<lparr>LeftTrigger := 255\<rparr>))
     \<noteq> MappedStates_default\<lparr>LeftTrigger := 255\<rparr>"
  by (simp add: update_states_def XInput_init_def MappedStates_default_def)

text \<open>
  Claim C8, amended. After a call whose snapshot carries a packet number different from
  the stored one, the new snapshot is the stored one, whether or not events were emitted;
  after a call with the stored packet number, the stored snapshot is the one from before.
\<close>

theorem prev_states_after_update:
  "prev_states (update_states self new_states) =
     (if PacketNumber (prev_states self) = PacketNumber new_states then prev_states self
      else new_states)"
  by (simp add: update_states_def Let_def)

theorem prev_states_after_update_witness:
  "prev_states (update_states (XInput_init [] :: unit XInput)
       (MappedStates_default\<lparr>PacketNumber := 1, LeftTrigger := 100\<rparr>))
     = MappedStates_default\<lparr>PacketNumber := 1, LeftTrigger := 100\<rparr> \<and>
   prev_states (update_states (XInput_init [] :: unit XInput)
       (MappedStates_default\<lparr>LeftTrigger := 255\<rparr>))
     = MappedStates_default"
  using prev_states_after_update
    [of "XInput_init [] :: unit XInput" "MappedStates_default\<lparr>PacketNumber := 1, LeftTrigger := 100\<rparr>"]
    prev_states_after_update
    [of "XInput_init [] :: unit XInput" "MappedStates_default\<lparr>LeftTrigger := 255\<rparr>"]
  by (simp add: XInput_init_def MappedStates_default_def)

section \<open>Properties of the history\<close>

subsection \<open>Insertion\<close>

lemma find_first_index:
  "i < length xs \<Longrightarrow> Q (xs ! i) \<Longrightarrow> \<forall>j<i. \<not> Q (xs ! j) \<Longrightarrow> find Q xs = Some (xs ! i)"
proof (induction xs arbitrary: i)
  case Nil
  then show ?case by simp
next
  case (Cons x xs)
  show ?case
  proof (cases i)
    case 0
    with Cons.prems show ?thesis by simp
  next
    case (Suc k)
    with Cons.prems have "\<not> Q x" by auto
    moreover have "find Q xs = Some (xs ! k)"
      using Cons.prems Suc by (intro Cons.IH) auto
    ultimately show ?thesis using Suc by simp
  qed
qed

lemma remove1_first_index:
  "i < length xs \<Longrightarrow> \<forall>j<i. xs ! j \<noteq> xs ! i \<Longrightarrow> remove1 (xs ! i) xs = take i xs @ drop (Suc i) xs"
proof (induction xs arbitrary: i)
  case Nil
  then show ?case by simp
next
  case (Cons x xs)
  show ?case
  proof (cases i)
    case 0
    then show ?thesis by simp
  next
    case (Suc k)
    with Cons.prems have "x \<noteq> xs ! k" by auto
    moreover have "remove1 (xs ! k) xs = take k xs @ drop (Suc k) xs"
      using Cons.prems Suc by (intro Cons.IH) auto
    ultimately show ?thesis using Suc by simp
  qed
qed

lemma find_in_set: "find Q xs = Some v \<Longrightarrow> v \<in> set xs"
  by (induction xs) (auto split: if_splits)

lemma find_none_all: "(\<forall>x\<in>set xs. \<not> Q x) \<Longrightarrow> find Q xs = None"
  by (induction xs) auto

lemma append_with_predicate_returns:
  "\<exists>dq'. deque_append_with_predicate dq obj P = Inr dq'"
  by (auto simp: deque_append_with_predicate_def deque_remove_def
        split: option.splits dest: find_in_set)

text \<open>
  Claim C1. Below its bound the history takes the new item at the end. At its bound, with
  \<open>i\<close> the position of the first item whose predicate (the pin flag) is false, exactly
  the item at \<open>i\<close> goes and the new item is put at the end; when every item is pinned the
  history comes back unchanged, the new item being dropped. In no case is an exception
  raised.
\<close>

theorem insert_evicts_first_unpinned:
  "(length (items dq) < maxlen dq \<longrightarrow>
      deque_append_with_predicate dq obj P = Inr (dq\<lparr>items := items dq @ [obj]\<rparr>)) \<and>
   (length (items dq) = maxlen dq \<and> i < length (items dq) \<and> \<not> P (items dq ! i) \<and>
      (\<forall>j<i. P (items dq ! j)) \<longrightarrow>
      deque_append_with_predicate dq obj P =
        Inr (dq\<lparr>items := take i (items dq) @ drop (Suc i) (items dq) @ [obj]\<rparr>)) \<and>
   (length (items dq) = maxlen dq \<and> (\<forall>x\<in>set (items dq). P x) \<longrightarrow>
      deque_append_with_predicate dq obj P = Inr dq) \<and>
   (\<exists>dq'. deque_append_with_predicate dq obj P = Inr dq')"
proof (intro conjI impI)
  assume "length (items dq) < maxlen dq"
  then show "deque_append_with_predicate dq obj P = Inr (dq\<lparr>items := items dq @ [obj]\<rparr>)"
    by (simp add: deque_append_with_predicate_def deque_append_def)
next
  assume h: "length (items dq) = maxlen dq \<and> i < length (items dq) \<and> \<not> P (items dq ! i) \<and>
      (\<forall>j<i. P (items dq ! j))"
  then have f: "find (\<lambda>x. \<not> P x) (items dq) = Some (items dq ! i)"
    by (intro find_first_index) auto
  have "\<forall>j<i. items dq ! j \<noteq> items dq ! i" using h by metis
  with h have r: "remove1 (items dq ! i) (items dq) = take i (items dq) @ drop (Suc i) (items dq)"
    by (intro remove1_first_index) auto
  have m: "items dq ! i \<in> set (items dq)" using h by simp
  have l: "length (take i (items dq) @ drop (Suc i) (items dq) @ [obj]) = maxlen dq"
    using h by auto
  show "deque_append_with_predicate dq obj P =
        Inr (dq\<lparr>items := take i (items dq) @ drop (Suc i) (items dq) @ [obj]\<rparr>)"
    using h f m l unfolding deque_append_with_predicate_def deque_remove_def deque_append_def r
    by (simp add: r)
next
  assume "length (items dq) = maxlen dq \<and> (\<forall>x\<in>set (items dq). P x)"
  then show "deque_append_with_predicate dq obj P = Inr dq"
    by (simp add: deque_append_with_predicate_def find_none_all)
next
  show "\<exists>dq'. deque_append_with_predicate dq obj P = Inr dq'"
    by (rule append_with_predicate_returns)
qed

theorem insert_evicts_first_unpinned_witness:
  "deque_append_with_predicate
      \<lparr>items = [ImageComposite_init (Pixels 1) ''a''], maxlen = 3\<rparr>
      (ImageComposite_init (Pixels 2) ''b'') pinnation
     = Inr \<lparr>items = [ImageComposite_init (Pixels 1) ''a'', ImageComposite_init (Pixels 2) ''b''],
            maxlen = 3\<rparr> \<and>
   deque_append_with_predicate
      \<lparr>items = [(ImageComposite_init (Pixels 1) ''a'')\<lparr>pinnation := True\<rparr>,
                ImageComposite_init (Pixels 2) ''b'',
                ImageComposite_init (Pixels 3) ''c''], maxlen = 3\<rparr>
      (ImageComposite_init (Pixels 4) ''d'') pinnation
     = Inr \<lparr>items = [(ImageComposite_init (Pixels 1) ''a'')\<lparr>pinnation := True\<rparr>,
                      ImageComposite_init (Pixels 3) ''c'',
                      ImageComposite_init (Pixels 4) ''d''], maxlen = 3\<rparr> \<and>
   deque_append_with_predicate
      \<lparr>items = [(ImageComposite_init (Pixels 1) ''a'')\<lparr>pinnation := True\<rparr>,
                (ImageComposite_init (Pixels 2) ''b'')\<lparr>pinnation := True\<rparr>], maxlen = 2\<rparr>
      (ImageComposite_init (Pixels 4) ''d'') pinnation
     = Inr \<lparr>items = [(ImageComposite_init (Pixels 1) ''a'')\<lparr>pinnation := True\<rparr>,
                      (ImageComposite_init (Pixels 2) ''b'')\<lparr>pinnation := True\<rparr>], maxlen = 2\<rparr>"
  using insert_evicts_first_unpinned
     [of "\<lparr>items = [ImageComposite_init (Pixels 1) ''a''], maxlen = 3\<rparr>"
         "ImageComposite_init (Pixels 2) ''b''" pinnation 0]
    insert_evicts_first_unpinned
     [of "\<lparr>items = [(ImageComposite_init (Pixels 1) ''a'')\<lparr>pinnation := True\<rparr>,
                ImageComposite_init (Pixels 2) ''b'',
                ImageComposite_init (Pixels 3) ''c''], maxlen = 3\<rparr>"
         "ImageComposite_init (Pixels 4) ''d''" pinnation 1]
    insert_evicts_first_unpinned
     [of "\<lparr>items = [(ImageComposite_init (Pixels 1) ''a'')\<lparr>pinnation := True\<rparr>,
                (ImageComposite_init (Pixels 2) ''b'')\<lparr>pinnation := True\<rparr>], maxlen = 2\<rparr>"
         "ImageComposite_init (Pixels 4) ''d''" pinnation 0]
  by (simp add: ImageComposite_init_def)

subsection \<open>Rotation\<close>

lemma rotate_right1_if: "rotate_right1 xs = (if xs = [] then [] else last xs # butlast xs)"
  by (cases xs) (simp_all add: rotate_right1_def)

lemma rotate_right1_rotate1: "rotate_right1 (rotate1 xs) = xs"
  by (cases xs) (simp_all add: rotate_right1_if)

lemma rotate1_rotate_right1: "rotate1 (rotate_right1 xs) = xs"
  by (simp add: rotate_right1_if)

lemma rotate_right_undoes_left: "(rotate_right1 ^^ n) ((rotate1 ^^ n) xs) = xs"
proof (induction n arbitrary: xs)
  case 0
  show ?case by simp
next
  case (Suc n)
  have "(rotate_right1 ^^ Suc n) ((rotate1 ^^ Suc n) xs)
          = (rotate_right1 ^^ n) (rotate_right1 (rotate1 ((rotate1 ^^ n) xs)))"
    by (simp add: funpow_swap1)
  also have "\<dots> = (rotate_right1 ^^ n) ((rotate1 ^^ n) xs)"
    by (simp add: rotate_right1_rotate1)
  finally show ?case using Suc.IH by simp
qed

lemma length_rotate_right1: "length (rotate_right1 xs) = length xs"
  by (cases xs) (simp_all add: rotate_right1_def)

lemma neg_mod_complement:
  fixes n :: nat and l :: nat
  assumes "0 < l"
  shows "(n + nat ((- int n) mod int l)) mod l = 0"
proof -
  have nonneg: "0 \<le> (- int n) mod int l" using assms by simp
  have "(int n + (- int n) mod int l) mod int l = (int n + - int n) mod int l"
    by (simp add: mod_add_right_eq)
  then have "(int n + (- int n) mod int l) mod int l = 0" by simp
  moreover have "int ((n + nat ((- int n) mod int l)) mod l)
      = (int n + (- int n) mod int l) mod int l"
    using nonneg by (simp add: zmod_int)
  ultimately show ?thesis by simp
qed

lemma rotate_right_closed:
  assumes "xs \<noteq> []"
  shows "(rotate_right1 ^^ n) xs = rotate (nat ((- int n) mod int (length xs))) xs"
proof -
  let ?m = "nat ((- int n) mod int (length xs))"
  have "(n + ?m) mod length xs = 0"
    using assms by (intro neg_mod_complement) simp
  then have "rotate (n + ?m) xs = xs" by simp
  then have "(rotate1 ^^ n) (rotate ?m xs) = xs"
    by (simp add: rotate_def funpow_add)
  then have "(rotate_right1 ^^ n) xs = (rotate_right1 ^^ n) ((rotate1 ^^ n) (rotate ?m xs))"
    by simp
  then show ?thesis by (simp only: rotate_right_undoes_left)
qed

lemma items_rotate_steps:
  "items (rotate_steps k dq) = rotate (nat ((- k) mod int (length (items dq)))) (items dq)"
proof (cases "items dq = []")
  case True
  then show ?thesis by (simp add: rotate_steps_def)
next
  case False
  show ?thesis
  proof (cases "0 \<le> k")
    case True
    then have "items (rotate_steps k dq) = (rotate_right1 ^^ nat k) (items dq)"
      using False by (simp add: rotate_steps_def)
    also have "\<dots> = rotate (nat ((- int (nat k)) mod int (length (items dq)))) (items dq)"
      using False by (rule rotate_right_closed)
    also have "- int (nat k) = - k" using True by simp
    finally show ?thesis .
  next
    case neg: False
    have pos: "0 < length (items dq)" using False by simp
    have "(rotate1 ^^ nat (- k)) (items dq) = rotate (nat (- k) mod length (items dq)) (items dq)"
      using rotate_conv_mod [of "nat (- k)" "items dq"] by (simp add: rotate_def)
    moreover have "int (nat (- k) mod length (items dq)) = (- k) mod int (length (items dq))"
      using neg by (simp add: zmod_int)
    then have "nat (- k) mod length (items dq) = nat ((- k) mod int (length (items dq)))"
      by linarith
    moreover have "items (rotate_steps k dq) = (rotate1 ^^ nat (- k)) (items dq)"
      using neg False by (simp add: rotate_steps_def)
    ultimately show ?thesis by simp
  qed
qed

lemma mset_rotate_eq: "mset (rotate n xs) = mset xs"
proof -
  let ?m = "n mod length xs"
  have "mset (rotate n xs) = mset (drop ?m xs) + mset (take ?m xs)"
    by (simp add: rotate_drop_take)
  also have "\<dots> = mset (take ?m xs) + mset (drop ?m xs)"
    by (rule add.commute)
  also have "\<dots> = mset (take ?m xs @ drop ?m xs)"
    by (simp only: mset_append)
  also have "\<dots> = mset xs"
    by (simp only: append_take_drop_id)
  finally show ?thesis .
qed

lemma rotate_steps_closed:
  "rotate_steps k dq = dq\<lparr>items := rotate (nat ((- k) mod int (length (items dq)))) (items dq)\<rparr>"
proof -
  have "deque.more (rotate_steps k dq) = deque.more dq"
    and "maxlen (rotate_steps k dq) = maxlen dq"
    by (simp_all add: rotate_steps_def)
  then show ?thesis
    by (intro deque.equality) (simp_all add: items_rotate_steps)
qed

lemma rotate_steps_back: "rotate_steps (- k) (rotate_steps k dq) = dq"
proof (cases "items dq = []")
  case True
  then show ?thesis by (simp add: rotate_steps_def)
next
  case False
  let ?l = "length (items dq)"
  let ?a = "nat ((- k) mod int ?l)"
  let ?b = "nat (k mod int ?l)"
  have pos: "0 < ?l" using False by simp
  have "int ((?b + ?a) mod ?l) = (k mod int ?l + (- k) mod int ?l) mod int ?l"
    using pos by (simp add: zmod_int)
  also have "\<dots> = (k + - k) mod int ?l"
    by (simp only: mod_add_eq)
  finally have z: "(?b + ?a) mod ?l = 0" by simp
  have "rotate ?b (rotate ?a (items dq)) = items dq"
    using z by (simp add: rotate_rotate)
  then show ?thesis by (simp add: rotate_steps_closed)
qed

lemma deque_rotate_in_range:
  "- (2 ^ 63) \<le> k \<Longrightarrow> k < 2 ^ 63 \<Longrightarrow>
     deque_rotate k dq
       = Inr (dq\<lparr>items := rotate (nat ((- k) mod int (length (items dq)))) (items dq)\<rparr>)"
  by (simp add: deque_rotate_def PY_SSIZE_T_MIN_def PY_SSIZE_T_MAX_def rotate_steps_closed)

lemma deque_rotate_out_of_range:
  "k < - (2 ^ 63) \<or> 2 ^ 63 \<le> k \<Longrightarrow> deque_rotate k dq = Inl OverflowError"
  by (auto simp: deque_rotate_def PY_SSIZE_T_MIN_def PY_SSIZE_T_MAX_def)

lemma deque_rotate_result:
  "deque_rotate k dq = Inr dq' \<Longrightarrow>
     length (items dq') = length (items dq) \<and> maxlen dq' = maxlen dq"
  by (auto simp: deque_rotate_def rotate_steps_closed split: if_splits)

text \<open>
  \<open>Rotate\<close> and \<open>Rrotate\<close> pass 1 and -1, so they never raise: the first moves the last
  item to the front, the second the first item to the back.
\<close>

lemma command_view_rotate_shifts:
  "command_view_rotate a
     = (None, a\<lparr>images := (images a)\<lparr>items := rotate_right1 (items (images a))\<rparr>\<rparr>) \<and>
   command_view_rrotate a
     = (None, a\<lparr>images := (images a)\<lparr>items := rotate1 (items (images a))\<rparr>\<rparr>)"
proof -
  have "rotate_steps 1 (images a) = (images a)\<lparr>items := rotate_right1 (items (images a))\<rparr>"
    by (cases "items (images a)") (simp_all add: rotate_steps_def rotate_right1_if)
  moreover have "rotate_steps (- 1) (images a) = (images a)\<lparr>items := rotate1 (items (images a))\<rparr>"
    by (cases "items (images a)") (simp_all add: rotate_steps_def)
  ultimately show ?thesis
    by (simp add: command_view_rotate_def command_view_rrotate_def deque_rotate_def
          PY_SSIZE_T_MIN_def PY_SSIZE_T_MAX_def)
qed

text \<open>
  Claim C7, as the spec states it, fails for integers that do not fit a C \<open>ssize_t\<close>:
  \<open>rotate\<close> raises \<open>OverflowError\<close> for them, and the \<open>Rotate by...\<close> dialog accepts any
  integer. Three captures are added to the initial history; rotating by \<open>-2^63\<close> is
  accepted and shifts the history, rotating by \<open>2^63\<close> then raises and leaves the shifted
  order, which is not the original one.
\<close>

theorem rotate_back_overflow_counterexample:
  "items (images (snd (add_image (Pixels 3) ''c'' (snd (add_image (Pixels 2) ''b''
      (snd (add_image (Pixels 1) ''a''
        (App_init \<lparr>clock = 0, screen = None, clipboard_free = True, datetimenow = ''''\<rparr>))))))))
     = [\<lparr>filename = ''a'', truemage = Pixels 1, pinnation = False\<rparr>,
        \<lparr>filename = ''b'', truemage = Pixels 2, pinnation = False\<rparr>,
        \<lparr>filename = ''c'', truemage = Pixels 3, pinnation = False\<rparr>] \<and>
   fst (command_view_nrotate (Some (- (2 ^ 63)))
      (snd (add_image (Pixels 3) ''c'' (snd (add_image (Pixels 2) ''b''
      (snd (add_image (Pixels 1) ''a''
        (App_init \<lparr>clock = 0, screen = None, clipboard_free = True, datetimenow = ''''\<rparr>)))))))) = None \<and>
   fst (command_view_nrotate (Some (2 ^ 63))
      (snd (command_view_nrotate (Some (- (2 ^ 63)))
      (snd (add_image (Pixels 3) ''c'' (snd (add_image (Pixels 2) ''b''
      (snd (add_image (Pixels 1) ''a''
        (App_init \<lparr>clock = 0, screen = None, clipboard_free = True, datetimenow = ''''\<rparr>))))))))))
     = Some OverflowError \<and>
   items (images (snd (command_view_nrotate (Some (2 ^ 63))
      (snd (command_view_nrotate (Some (- (2 ^ 63)))
      (snd (add_image (Pixels 3) ''c'' (snd (add_image (Pixels 2) ''b''
      (snd (add_image (Pixels 1) ''a''
        (App_init \<lparr>clock = 0, screen = None, clipboard_free = True, datetimenow = ''''\<rparr>))))))))))))
     = [\<lparr>filename = ''c'', truemage = Pixels 3, pinnation = False\<rparr>,
        \<lparr>filename = ''a'', truemage = Pixels 1, pinnation = False\<rparr>,
        \<lparr>filename = ''b'', truemage = Pixels 2, pinnation = False\<rparr>]"
  by (simp add: App_init_def deque_init_def LIMIT_def add_image_def
        deque_append_with_predicate_def deque_append_def ImageComposite_init_def
        command_view_nrotate_def deque_rotate_def PY_SSIZE_T_MIN_def PY_SSIZE_T_MAX_def
        rotate_steps_closed rotate_def eval_nat_numeral)

text \<open>
  Claim C7, amended. For every history and every integer \<open>k\<close> that fits a C \<open>ssize_t\<close>
  (from \<open>-2^63\<close> to \<open>2^63 - 1\<close>), \<open>rotate(k)\<close> is a circular shift: the result is the
  sequence rotated to the left by \<open>-k\<close> modulo its length (so a positive \<open>k\<close> shifts to the
  right, a negative one to the left, and only \<open>k\<close> modulo the size matters), the bound
  and the multiset of items, pin flags included, stay the same, and a history of at most
  one item is unchanged; the \<open>Rotate by...\<close> command does exactly this to the history.
  When \<open>-k\<close> fits as well, \<open>rotate(-k)\<close> after \<open>rotate(k)\<close> gives back the original.
  For any other \<open>k\<close> an \<open>OverflowError\<close> is raised and the history stays as it was; a
  cancelled dialog changes nothing.
\<close>

theorem rotate_circular_shift:
  "(- (2 ^ 63) \<le> k \<and> k < 2 ^ 63 \<longrightarrow>
      (\<exists>dq'. deque_rotate k dq = Inr dq' \<and>
         items dq' = rotate (nat ((- k) mod int (length (items dq)))) (items dq) \<and>
         maxlen dq' = maxlen dq \<and>
         mset (items dq') = mset (items dq) \<and>
         (length (items dq) \<le> 1 \<longrightarrow> dq' = dq)) \<and>
      command_view_nrotate (Some k) a
        = (None, a\<lparr>images := (images a)\<lparr>items :=
             rotate (nat ((- k) mod int (length (items (images a))))) (items (images a))\<rparr>\<rparr>)) \<and>
   (- (2 ^ 63) < k \<and> k < 2 ^ 63 \<longrightarrow>
      (\<exists>dq'. deque_rotate k dq = Inr dq' \<and> deque_rotate (- k) dq' = Inr dq) \<and>
      (\<exists>a'. command_view_nrotate (Some k) a = (None, a') \<and>
            command_view_nrotate (Some (- k)) a' = (None, a))) \<and>
   (k < - (2 ^ 63) \<or> 2 ^ 63 \<le> k \<longrightarrow>
      deque_rotate k dq = Inl OverflowError \<and>
      command_view_nrotate (Some k) a = (Some OverflowError, a)) \<and>
   command_view_nrotate None a = (None, a)"
proof (intro conjI impI)
  assume r: "- (2 ^ 63) \<le> k \<and> k < 2 ^ 63"
  let ?dq = "dq\<lparr>items := rotate (nat ((- k) mod int (length (items dq)))) (items dq)\<rparr>"
  have d: "deque_rotate k dq = Inr ?dq"
    using r by (simp add: deque_rotate_in_range)
  have one: "length (items dq) \<le> 1 \<longrightarrow> ?dq = dq"
    by simp
  show "\<exists>dq'. deque_rotate k dq = Inr dq' \<and>
         items dq' = rotate (nat ((- k) mod int (length (items dq)))) (items dq) \<and>
         maxlen dq' = maxlen dq \<and>
         mset (items dq') = mset (items dq) \<and>
         (length (items dq) \<le> 1 \<longrightarrow> dq' = dq)"
    using d one by (intro exI [of _ ?dq]) (simp add: mset_rotate_eq)
  show "command_view_nrotate (Some k) a
        = (None, a\<lparr>images := (images a)\<lparr>items :=
             rotate (nat ((- k) mod int (length (items (images a))))) (items (images a))\<rparr>\<rparr>)"
    using r by (simp add: command_view_nrotate_def deque_rotate_in_range)
next
  assume r: "- (2 ^ 63) < k \<and> k < 2 ^ 63"
  then have fwd: "deque_rotate k d = Inr (rotate_steps k d)"
    and bwd: "deque_rotate (- k) d = Inr (rotate_steps (- k) d)" for d :: "'b deque"
    by (simp_all add: deque_rotate_def PY_SSIZE_T_MIN_def PY_SSIZE_T_MAX_def)
  from r have fwd': "deque_rotate k d = Inr (rotate_steps k d)"
    and bwd': "deque_rotate (- k) d = Inr (rotate_steps (- k) d)" for d :: "ImageComposite deque"
    by (simp_all add: deque_rotate_def PY_SSIZE_T_MIN_def PY_SSIZE_T_MAX_def)
  show "\<exists>dq'. deque_rotate k dq = Inr dq' \<and> deque_rotate (- k) dq' = Inr dq"
    by (intro exI [of _ "rotate_steps k dq"]) (simp add: fwd bwd rotate_steps_back)
  show "\<exists>a'. command_view_nrotate (Some k) a = (None, a') \<and>
            command_view_nrotate (Some (- k)) a' = (None, a)"
    by (intro exI [of _ "a\<lparr>images := rotate_steps k (images a)\<rparr>"])
       (simp add: command_view_nrotate_def fwd' bwd' rotate_steps_back)
next
  assume o: "k < - (2 ^ 63) \<or> 2 ^ 63 \<le> k"
  then show "deque_rotate k dq = Inl OverflowError"
    by (rule deque_rotate_out_of_range)
  from o have "deque_rotate k (images a) = Inl OverflowError"
    by (rule deque_rotate_out_of_range)
  then show "command_view_nrotate (Some k) a = (Some OverflowError, a)"
    by (simp add: command_view_nrotate_def)
next
  have "deque_rotate 0 (images a) = Inr (images a)"
    by (simp add: deque_rotate_def PY_SSIZE_T_MIN_def PY_SSIZE_T_MAX_def rotate_steps_def)
  then show "command_view_nrotate None a = (None, a)"
    by (simp add: command_view_nrotate_def)
qed

theorem rotate_circular_shift_witness:
  "(- (2 ^ 63) \<le> (7 :: int) \<and> (7 :: int) < 2 ^ 63) \<and>
   deque_rotate 7 \<lparr>items = [1, 2, 3 :: nat], maxlen = 4\<rparr>
     = Inr \<lparr>items = [3, 1, 2], maxlen = 4\<rparr> \<and>
   deque_rotate (- 7) \<lparr>items = [3, 1, 2 :: nat], maxlen = 4\<rparr>
     = Inr \<lparr>items = [1, 2, 3], maxlen = 4\<rparr> \<and>
   command_view_nrotate (Some 7)
      ((App_init \<lparr>clock = 0, screen = None, clipboard_free = True, datetimenow = ''t0''\<rparr>)
         \<lparr>images := \<lparr>items = [\<lparr>filename = ''a'', truemage = Pixels 1, pinnation = True\<rparr>,
                               \<lparr>filename = ''b'', truemage = Pixels 2, pinnation = False\<rparr>,
                               \<lparr>filename = ''c'', truemage = Pixels 3, pinnation = False\<rparr>],
                      maxlen = 256\<rparr>\<rparr>)
     = (None,
        (App_init \<lparr>clock = 0, screen = None, clipboard_free = True, datetimenow = ''t0''\<rparr>)
         \<lparr>images := \<lparr>items = [\<lparr>filename = ''c'', truemage = Pixels 3, pinnation = False\<rparr>,
                               \<lparr>filename = ''a'', truemage = Pixels 1, pinnation = True\<rparr>,
                               \<lparr>filename = ''b'', truemage = Pixels 2, pinnation = False\<rparr>],
                      maxlen = 256\<rparr>\<rparr>) \<and>
   (2 :: int) ^ 63 \<le> 2 ^ 63 \<and>
   deque_rotate (2 ^ 63) \<lparr>items = [1, 2, 3 :: nat], maxlen = 4\<rparr> = Inl OverflowError \<and>
   length (items \<lparr>items = [5 :: nat], maxlen = 4\<rparr>) \<le> 1 \<and>
   deque_rotate 3 \<lparr>items = [5 :: nat], maxlen = 4\<rparr> = Inr \<lparr>items = [5], maxlen = 4\<rparr>"
proof -
  let ?dq = "\<lparr>items = [1, 2, 3 :: nat], maxlen = 4\<rparr>"
  let ?sh = "\<lparr>items = [3, 1, 2 :: nat], maxlen = 4\<rparr>"
  let ?one = "\<lparr>items = [5 :: nat], maxlen = 4\<rparr>"
  let ?app = "(App_init \<lparr>clock = 0, screen = None, clipboard_free = True, datetimenow = ''t0''\<rparr>)
         \<lparr>images := \<lparr>items = [\<lparr>filename = ''a'', truemage = Pixels 1, pinnation = True\<rparr>,
                               \<lparr>filename = ''b'', truemage = Pixels 2, pinnation = False\<rparr>,
                               \<lparr>filename = ''c'', truemage = Pixels 3, pinnation = False\<rparr>],
                      maxlen = 256\<rparr>\<rparr>"
  have rng: "- (2 ^ 63) \<le> (7 :: int) \<and> (7 :: int) < 2 ^ 63" by simp
  have rng': "- (2 ^ 63) < (7 :: int) \<and> (7 :: int) < 2 ^ 63" by simp
  have rng3: "- (2 ^ 63) \<le> (3 :: int) \<and> (3 :: int) < 2 ^ 63" by simp
  have big: "(2 :: int) ^ 63 \<le> 2 ^ 63" by simp
  note at7 = rotate_circular_shift [where k = 7 and dq = ?dq and a = ?app]
  from at7 rng obtain dq' where r7: "deque_rotate 7 ?dq = Inr dq'"
    and i7: "items dq' = rotate (nat ((- 7) mod int (length (items ?dq)))) (items ?dq)"
    and m7: "maxlen dq' = maxlen ?dq"
    by blast
  from i7 m7 have "dq' = ?sh"
    by (cases dq') (simp add: rotate_def eval_nat_numeral)
  with r7 have fwd: "deque_rotate 7 ?dq = Inr ?sh" by simp
  from at7 rng' obtain d2 where "deque_rotate 7 ?dq = Inr d2" and "deque_rotate (- 7) d2 = Inr ?dq"
    by blast
  with fwd have bwd: "deque_rotate (- 7) ?sh = Inr ?dq" by simp
  from at7 rng have "command_view_nrotate (Some 7) ?app
      = (None, ?app\<lparr>images := (images ?app)\<lparr>items :=
           rotate (nat ((- 7) mod int (length (items (images ?app))))) (items (images ?app))\<rparr>\<rparr>)"
    by blast
  then have app: "command_view_nrotate (Some 7) ?app
      = (None, (App_init \<lparr>clock = 0, screen = None, clipboard_free = True, datetimenow = ''t0''\<rparr>)
         \<lparr>images := \<lparr>items = [\<lparr>filename = ''c'', truemage = Pixels 3, pinnation = False\<rparr>,
                               \<lparr>filename = ''a'', truemage = Pixels 1, pinnation = True\<rparr>,
                               \<lparr>filename = ''b'', truemage = Pixels 2, pinnation = False\<rparr>],
                      maxlen = 256\<rparr>\<rparr>)"
    by (simp add: rotate_def eval_nat_numeral)
  from rotate_circular_shift [where k = "2 ^ 63" and dq = ?dq and a = ?app] big
  have ovf: "deque_rotate (2 ^ 63) ?dq = Inl OverflowError" by blast
  have len: "length (items ?one) \<le> 1" by simp
  from rotate_circular_shift [where k = 3 and dq = ?one and a = ?app] rng3 len
  have single: "deque_rotate 3 ?one = Inr ?one" by blast
  show ?thesis using rng fwd bwd app big ovf len single by (intro conjI) simp_all
qed

subsection \<open>The bound of the deque\<close>

lemma deque_append_bounded:
  "length (items dq) \<le> maxlen dq \<Longrightarrow>
     length (items (deque_append x dq)) \<le> maxlen dq \<and> maxlen (deque_append x dq) = maxlen dq"
  by (auto simp: deque_append_def Let_def)

lemma fold_deque_append:
  "length (items dq) \<le> maxlen dq \<Longrightarrow>
     items (fold deque_append xs dq)
       = drop (length (items dq) + length xs - maxlen dq) (items dq @ xs) \<and>
     maxlen (fold deque_append xs dq) = maxlen dq"
proof (induction xs arbitrary: dq)
  case Nil
  then show ?case by simp
next
  case (Cons x xs)
  let ?dq = "deque_append x dq"
  have b: "length (items ?dq) \<le> maxlen ?dq" and m: "maxlen ?dq = maxlen dq"
    using deque_append_bounded [OF Cons.prems, of x] by simp_all
  have ih: "items (fold deque_append xs ?dq)
       = drop (length (items ?dq) + length xs - maxlen dq) (items ?dq @ xs)"
    and ihm: "maxlen (fold deque_append xs ?dq) = maxlen dq"
    using Cons.IH [OF b] m by simp_all
  show ?case
  proof (cases "length (items dq) < maxlen dq")
    case True
    then have "items ?dq = items dq @ [x]" by (simp add: deque_append_def)
    with ih ihm show ?thesis by simp
  next
    case False
    with Cons.prems have full: "length (items dq) = maxlen dq" by simp
    then have i: "items ?dq = tl (items dq @ [x])" by (simp add: deque_append_def)
    then have t: "items ?dq @ xs = tl (items dq @ x # xs)" by (cases "items dq") simp_all
    have l: "length (items ?dq) = maxlen dq" using i full by simp
    have "items (fold deque_append xs ?dq) = drop (length xs) (tl (items dq @ x # xs))"
      using ih l t by simp
    also have "\<dots> = drop (Suc (length xs)) (items dq @ x # xs)"
      by (simp only: drop_Suc)
    finally show ?thesis using ihm full by simp
  qed
qed

lemma deque_init_items:
  "items (deque_init xs m) = drop (length xs - m) xs \<and> maxlen (deque_init xs m) = m"
  using fold_deque_append [of "\<lparr>items = [], maxlen = m\<rparr>" xs]
  by (simp add: deque_init_def)

lemma deque_remove_bounded:
  "deque_remove x dq = Inr dq' \<Longrightarrow> length (items dq) \<le> maxlen dq \<Longrightarrow>
     length (items dq') < length (items dq) \<and> maxlen dq' = maxlen dq"
proof -
  assume r: "deque_remove x dq = Inr dq'"
  then have m: "x \<in> set (items dq)" and d: "dq' = dq\<lparr>items := remove1 x (items dq)\<rparr>"
    by (auto simp: deque_remove_def split: if_splits)
  from m have "0 < length (items dq)" by (rule length_pos_if_in_set)
  with m d show ?thesis by (simp add: length_remove1)
qed

lemma append_with_predicate_bounded:
  assumes "deque_append_with_predicate dq obj P = Inr dq'"
    and "length (items dq) \<le> maxlen dq"
  shows "length (items dq') \<le> maxlen dq' \<and> maxlen dq' = maxlen dq"
proof (cases "length (items dq) = maxlen dq")
  case False
  with assms have "dq' = deque_append obj dq"
    by (simp add: deque_append_with_predicate_def)
  with deque_append_bounded [OF assms(2), of obj] show ?thesis by simp
next
  case True
  show ?thesis
  proof (cases "find (\<lambda>x. \<not> P x) (items dq)")
    case None
    with True assms show ?thesis by (simp add: deque_append_with_predicate_def)
  next
    case (Some victim)
    with True assms obtain dq1 where r: "deque_remove victim dq = Inr dq1"
      and d: "dq' = deque_append obj dq1"
      by (auto simp: deque_append_with_predicate_def split: sum.splits)
    from deque_remove_bounded [OF r assms(2)]
    have "length (items dq1) \<le> maxlen dq1" and "maxlen dq1 = maxlen dq"
      using assms(2) by simp_all
    with deque_append_bounded [of dq1 obj] d show ?thesis by simp
  qed
qed

lemma extend_with_predicate_bounded:
  "deque_extend_with_predicate dq xs P = (r, dq') \<Longrightarrow> length (items dq) \<le> maxlen dq \<Longrightarrow>
     length (items dq') \<le> maxlen dq' \<and> maxlen dq' = maxlen dq"
proof (induction xs arbitrary: dq)
  case Nil
  then show ?case by simp
next
  case (Cons x xs)
  show ?case
  proof (cases "deque_append_with_predicate dq x P")
    case (Inl e)
    with Cons.prems show ?thesis by simp
  next
    case (Inr dq1)
    from append_with_predicate_bounded [OF Inr Cons.prems(2)]
    have b: "length (items dq1) \<le> maxlen dq1" and m: "maxlen dq1 = maxlen dq" by simp_all
    from Cons.prems(1) Inr have "deque_extend_with_predicate dq1 xs P = (r, dq')" by simp
    from Cons.IH [OF this b] m show ?thesis by simp
  qed
qed


subsection \<open>The bound of the history\<close>

lemma add_image_bounded:
  assumes "add_image img name a = (r, a')"
    and "length (items (images a)) \<le> maxlen (images a)"
  shows "length (items (images a')) \<le> maxlen (images a') \<and> maxlen (images a') = maxlen (images a) \<and>
         deque_collect_limit a' = deque_collect_limit a"
proof (cases "deque_append_with_predicate (images a) (ImageComposite_init img name) pinnation")
  case (Inl e)
  with assms show ?thesis by (simp add: add_image_def)
next
  case (Inr dq)
  with assms(1) have "a' = a\<lparr>images := dq\<rparr>" by (simp add: add_image_def)
  with append_with_predicate_bounded [OF Inr assms(2)] show ?thesis by simp
qed

lemma add_images_bounded:
  assumes "add_images imgs a = (r, a')"
    and "length (items (images a)) \<le> maxlen (images a)"
  shows "length (items (images a')) \<le> maxlen (images a') \<and> maxlen (images a') = maxlen (images a) \<and>
         deque_collect_limit a' = deque_collect_limit a"
proof -
  obtain r1 dq where e: "deque_extend_with_predicate (images a)
        (map (\<lambda>(img, name). ImageComposite_init img name) imgs) pinnation = (r1, dq)"
    by (cases "deque_extend_with_predicate (images a)
        (map (\<lambda>(img, name). ImageComposite_init img name) imgs) pinnation") auto
  with assms(1) have "a' = a\<lparr>images := dq\<rparr>" by (simp add: add_images_def)
  with extend_with_predicate_bounded [OF e assms(2)] show ?thesis by simp
qed

lemma command_action_take_bounded:
  assumes "command_action_take a = (r, a')"
    and "length (items (images a)) \<le> maxlen (images a)"
  shows "length (items (images a')) \<le> maxlen (images a') \<and> maxlen (images a') = maxlen (images a) \<and>
         deque_collect_limit a' = deque_collect_limit a"
proof (cases "screen (world a)")
  case None
  with assms show ?thesis by (simp add: command_action_take_def)
next
  case (Some img)
  let ?g = "a\<lparr>effects := effects a @ [Grab img]\<rparr>"
  show ?thesis
  proof (cases "copy_upon_take a \<and> \<not> clipboard_free (world a)")
    case True
    with Some assms show ?thesis
      by (auto simp: command_action_take_def copy_image_def)
  next
    case False
    define a1 where "a1 = (if copy_upon_take a then ?g\<lparr>effects := effects ?g @ [Copy img]\<rparr> else ?g)"
    have t: "command_action_take a = add_image img (''PrtSc '' @ datetimenow (world a1)) a1"
      using Some False by (simp add: command_action_take_def copy_image_def a1_def)
    have b: "length (items (images a1)) \<le> maxlen (images a1)"
      and m: "maxlen (images a1) = maxlen (images a)" "deque_collect_limit a1 = deque_collect_limit a"
      using assms(2) by (simp_all add: a1_def)
    from t assms(1) have "add_image img (''PrtSc '' @ datetimenow (world a1)) a1 = (r, a')" by simp
    from add_image_bounded [OF this b] m show ?thesis by simp
  qed
qed

lemma xinput_take_bounded:
  assumes "xinput_ltrt_command_action_take states a = (r, a')"
    and "length (items (images a)) \<le> maxlen (images a)"
  shows "length (items (images a')) \<le> maxlen (images a') \<and> maxlen (images a') = maxlen (images a) \<and>
         deque_collect_limit a' = deque_collect_limit a"
proof (cases "clock (world a) - xinput_last_time a < xinput_take_cooldown a
               \<or> LeftTrigger states \<noteq> 255 \<or> RightTrigger states \<noteq> 255")
  case True
  with assms(1) have "a' = a"
    by (auto simp: xinput_ltrt_command_action_take_def split: if_splits)
  with assms(2) show ?thesis by simp
next
  case False
  let ?b = "a\<lparr>effects := effects a @ [Beep]\<rparr>"
  obtain r1 a1 where c: "command_action_take ?b = (r1, a1)"
    by (cases "command_action_take ?b") auto
  have "length (items (images ?b)) \<le> maxlen (images ?b)" using assms(2) by simp
  from command_action_take_bounded [OF c this]
  have k: "length (items (images a1)) \<le> maxlen (images a1) \<and> maxlen (images a1) = maxlen (images a) \<and>
         deque_collect_limit a1 = deque_collect_limit a" by simp
  from False c assms(1) have "a' = a1 \<or> a' = a1\<lparr>xinput_last_time := clock (world a1)\<rparr>"
    by (cases r1) (auto simp: xinput_ltrt_command_action_take_def split: if_splits)
  with k show ?thesis by auto
qed

lemma reset_images_bounded:
  "length (items (images (reset_images imgs a))) \<le> maxlen (images (reset_images imgs a)) \<and>
   maxlen (images (reset_images imgs a)) = deque_collect_limit a \<and>
   deque_collect_limit (reset_images imgs a) = deque_collect_limit a"
  by (simp add: reset_images_def deque_init_items)

lemma rotate_command_bounded:
  assumes "(case deque_rotate k (images a) of
              Inl e \<Rightarrow> (Some e, a)
            | Inr dq \<Rightarrow> (None, a\<lparr>images := dq\<rparr>)) = (r, a')"
  shows "length (items (images a')) = length (items (images a)) \<and>
         maxlen (images a') = maxlen (images a) \<and>
         deque_collect_limit a' = deque_collect_limit a"
proof (cases "deque_rotate k (images a)")
  case (Inl e)
  with assms show ?thesis by simp
next
  case (Inr dq)
  with assms have "a' = a\<lparr>images := dq\<rparr>" by simp
  with deque_rotate_result [OF Inr] show ?thesis by simp
qed

lemma reachable_bounded:
  "reachable a \<Longrightarrow>
     length (items (images a)) \<le> maxlen (images a) \<and> maxlen (images a) = deque_collect_limit a"
proof (induction rule: reachable.induct)
  case (r_init w)
  show ?case by (simp add: App_init_def deque_init_items)
next
  case (r_world a w)
  then show ?case by simp
next
  case (r_add_image a img name r a')
  with add_image_bounded [of img name a r a'] show ?case by simp
next
  case (r_add_images a imgs r a')
  with add_images_bounded [of imgs a r a'] show ?case by simp
next
  case (r_take a r a')
  with command_action_take_bounded [of a r a'] show ?case by simp
next
  case (r_xinput_take a states r a')
  with xinput_take_bounded [of states a r a'] show ?case by simp
next
  case (r_remove a j r a')
  then show ?case
    by (auto simp: remove_collected_image_def split: if_splits)
next
  case (r_rotate a r a')
  with rotate_command_bounded [where k = 1 and a = a and r = r and a' = a'] show ?case
    by (simp add: command_view_rotate_def)
next
  case (r_rrotate a r a')
  with rotate_command_bounded [where k = "- 1" and a = a and r = r and a' = a'] show ?case
    by (simp add: command_view_rrotate_def)
next
  case (r_nrotate a answer r a')
  with rotate_command_bounded
      [where k = "case answer of None \<Rightarrow> 0 | Some n \<Rightarrow> n" and a = a and r = r and a' = a'] show ?case
    by (simp add: command_view_nrotate_def)
next
  case (r_remove_all a)
  show ?case
    using reset_images_bounded [of "filter pinnation (items (images a))" a]
    by (simp add: command_view_remove_all_def)
next
  case (r_set_limit a answer')
  let ?a1 = "a\<lparr>deque_collect_limit :=
                    (case answer' of
                       None \<Rightarrow> deque_collect_limit a
                     | Some n \<Rightarrow> if n = 0 then deque_collect_limit a else n)\<rparr>"
  have "command_option_set_deque_limit answer' a = reset_images (items (images ?a1)) ?a1"
    by (simp add: command_option_set_deque_limit_def Let_def)
  with reset_images_bounded [of "items (images ?a1)" ?a1] show ?case by simp
next
  case (r_toggle_pin a i)
  then show ?case by (simp add: toggle_pin_def)
qed

lemma reachable_add_image_snd: "reachable a \<Longrightarrow> reachable (snd (add_image img name a))"
  using r_add_image [of a img name "fst (add_image img name a)" "snd (add_image img name a)"]
  by simp

text \<open>
  Claim C9. In every state the application can reach, the history holds at most
  \<open>_deque_collect_limit\<close> items: the initial state does, and inserting one or many items,
  removing the unpinned or a single item, rotating, changing the limit (also to a smaller
  one) and flipping a pin keep it so.
\<close>

theorem size_within_limit:
  "reachable a \<Longrightarrow> length (items (images a)) \<le> deque_collect_limit a"
  using reachable_bounded [of a] by simp

theorem size_within_limit_witness:
  "reachable (command_option_set_deque_limit (Some 1)
      (snd (add_image (Pixels 2) ''b'' (snd (add_image (Pixels 1) ''a''
        (App_init \<lparr>clock = 0, screen = None, clipboard_free = True, datetimenow = ''''\<rparr>)))))) \<and>
   length (items (images (command_option_set_deque_limit (Some 1)
      (snd (add_image (Pixels 2) ''b'' (snd (add_image (Pixels 1) ''a''
        (App_init \<lparr>clock = 0, screen = None, clipboard_free = True, datetimenow = ''''\<rparr>)))))))) 
     \<le> deque_collect_limit (command_option_set_deque_limit (Some 1)
      (snd (add_image (Pixels 2) ''b'' (snd (add_image (Pixels 1) ''a''
        (App_init \<lparr>clock = 0, screen = None, clipboard_free = True, datetimenow = ''''\<rparr>))))))"
proof -
  have r: "reachable (command_option_set_deque_limit (Some 1)
      (snd (add_image (Pixels 2) ''b'' (snd (add_image (Pixels 1) ''a''
        (App_init \<lparr>clock = 0, screen = None, clipboard_free = True, datetimenow = ''''\<rparr>))))))"
    by (intro r_set_limit reachable_add_image_snd r_init)
  from size_within_limit [OF r] r show ?thesis by simp
qed

text \<open>
  Claim C4, as the spec states it, fails: \<open>_reset_images\<close> rebuilds the deque with the
  new \<open>maxlen\<close>, and the constructor keeps the last items whatever their pin flags.
  Two captures are added to the initial history, the first is pinned, and the limit is
  set to 1: the pinned item is gone and the unpinned one stays.
\<close>

theorem resize_evicts_pinned_counterexample:
  "items (images (toggle_pin 0
      (snd (add_image (Pixels 2) ''b'' (snd (add_image (Pixels 1) ''a''
        (App_init \<lparr>clock = 0, screen = None, clipboard_free = True, datetimenow = ''''\<rparr>)))))))
     = [\<lparr>filename = ''a'', truemage = Pixels 1, pinnation = True\<rparr>,
        \<lparr>filename = ''b'', truemage = Pixels 2, pinnation = False\<rparr>] \<and>
   items (images (command_option_set_deque_limit (Some 1) (toggle_pin 0
      (snd (add_image (Pixels 2) ''b'' (snd (add_image (Pixels 1) ''a''
        (App_init \<lparr>clock = 0, screen = None, clipboard_free = True, datetimenow = ''''\<rparr>))))))))
     = [\<lparr>filename = ''b'', truemage = Pixels 2, pinnation = False\<rparr>]"
  by (simp add: App_init_def deque_init_def LIMIT_def add_image_def
        deque_append_with_predicate_def deque_append_def toggle_pin_def
        command_option_set_deque_limit_def reset_images_def ImageComposite_init_def)

text \<open>
  Claim C4, amended. Setting the limit to \<open>n\<close> keeps exactly the last \<open>n\<close> items of the
  history's current order, in that order, and drops the earlier ones, pinned or not; the
  size becomes the smaller of \<open>n\<close> and the old size, so it never exceeds the new limit.
  This holds for a history without pinned items as for any other.
\<close>

theorem resize_keeps_last:
  "0 < n \<Longrightarrow>
     items (images (command_option_set_deque_limit (Some n) a))
       = drop (length (items (images a)) - n) (items (images a)) \<and>
     length (items (images (command_option_set_deque_limit (Some n) a)))
       = min n (length (items (images a))) \<and>
     maxlen (images (command_option_set_deque_limit (Some n) a)) = n \<and>
     deque_collect_limit (command_option_set_deque_limit (Some n) a) = n"
  by (auto simp: command_option_set_deque_limit_def reset_images_def deque_init_items)

theorem resize_keeps_last_witness:
  "(0::nat) < 2 \<and>
   items (images (command_option_set_deque_limit (Some 2)
     ((App_init \<lparr>clock = 0, screen = None, clipboard_free = True, datetimenow = ''''\<rparr>)
        \<lparr>images := \<lparr>items = [\<lparr>filename = ''a'', truemage = Pixels 1, pinnation = True\<rparr>,
                              \<lparr>filename = ''b'', truemage = Pixels 2, pinnation = False\<rparr>,
                              \<lparr>filename = ''c'', truemage = Pixels 3, pinnation = False\<rparr>],
                     maxlen = 256\<rparr>\<rparr>)))
     = [\<lparr>filename = ''b'', truemage = Pixels 2, pinnation = False\<rparr>,
        \<lparr>filename = ''c'', truemage = Pixels 3, pinnation = False\<rparr>]"
  using resize_keeps_last [of 2
     "(App_init \<lparr>clock = 0, screen = None, clipboard_free = True, datetimenow = ''''\<rparr>)
        \<lparr>images := \<lparr>items = [\<lparr>filename = ''a'', truemage = Pixels 1, pinnation = True\<rparr>,
                              \<lparr>filename = ''b'', truemage = Pixels 2, pinnation = False\<rparr>,
                              \<lparr>filename = ''c'', truemage = Pixels 3, pinnation = False\<rparr>],
                     maxlen = 256\<rparr>\<rparr>"]
  by simp

text \<open>
  The last items of the current order need not be the ones inserted last: after three
  captures and one \<open>Rotate\<close> the newest capture stands first, and a limit of 2 drops it.
\<close>

lemma resize_after_rotation_drops_newest:
  "items (images (command_option_set_deque_limit (Some 2) (snd (command_view_rotate
      (snd (add_image (Pixels 3) ''c'' (snd (add_image (Pixels 2) ''b''
      (snd (add_image (Pixels 1) ''a''
        (App_init \<lparr>clock = 0, screen = None, clipboard_free = True, datetimenow = ''''\<rparr>)))))))))))
     = [\<lparr>filename = ''a'', truemage = Pixels 1, pinnation = False\<rparr>,
        \<lparr>filename = ''b'', truemage = Pixels 2, pinnation = False\<rparr>]"
  by (simp add: command_view_rotate_shifts rotate_right1_if App_init_def deque_init_def LIMIT_def
        add_image_def deque_append_with_predicate_def deque_append_def ImageComposite_init_def
        command_option_set_deque_limit_def reset_images_def)

section \<open>Properties of the trigger handler and of polling\<close>




lemma drain_queue_returns_empty:
  "drain_queue callbacks states queue w = (None, queue', w') \<Longrightarrow> queue' = []"
  by (induction queue arbitrary: w) (auto split: prod.splits option.splits)

lemmas run_defs =
  toggle_xinput_poll_def timer_fires_def poll_for_xinput_def update_def handle_events_def
  update_states_def App_xinput_def XInput_init_def App_init_def MappedStates_default_def
  xinput_ltrt_command_action_take_def command_action_take_def copy_image_def add_image_def
  deque_append_with_predicate_def deque_append_def deque_init_def ImageComposite_init_def
  Event_eq_def mk_Event_def LIMIT_def DELAY_def Let_def



text \<open>
  Claim C5, as the spec states it, fails: turning polling off cancels the timer and
  touches nothing else; the queue is not cleared. Polling is turned on; at the next tick
  both triggers arrive at 255 while \<open>ImageGrab.grab()\<close> raises, so the handler called for
  the left trigger's event raises and the right trigger's event stays queued; polling is
  turned off (the event is still queued) and on again with no controller reporting: the
  update dispatches the old event, and the handler beeps and captures.
\<close>

theorem queued_event_dispatched_after_reenabling_counterexample:
  "event_queue (snd (mainloop
      [(\<lparr>clock = 1, screen = None, clipboard_free = True, datetimenow = ''t1''\<rparr>, None, Toggle_poll),
       (\<lparr>clock = 1, screen = None, clipboard_free = True, datetimenow = ''t1''\<rparr>,
          Some (MappedStates_default\<lparr>PacketNumber := 1, LeftTrigger := 255, RightTrigger := 255\<rparr>), Timer),
       (\<lparr>clock = 1, screen = None, clipboard_free = True, datetimenow = ''t1''\<rparr>, None, Toggle_poll)]
      (App_init \<lparr>clock = 0, screen = None, clipboard_free = True, datetimenow = ''t0''\<rparr>, App_xinput)))
     = [mk_Event ''press'' ''RightTrigger''] \<and>
   \<not> xinput_poll (fst (mainloop
      [(\<lparr>clock = 1, screen = None, clipboard_free = True, datetimenow = ''t1''\<rparr>, None, Toggle_poll),
       (\<lparr>clock = 1, screen = None, clipboard_free = True, datetimenow = ''t1''\<rparr>,
          Some (MappedStates_default\<lparr>PacketNumber := 1, LeftTrigger := 255, RightTrigger := 255\<rparr>), Timer),
       (\<lparr>clock = 1, screen = None, clipboard_free = True, datetimenow = ''t1''\<rparr>, None, Toggle_poll)]
      (App_init \<lparr>clock = 0, screen = None, clipboard_free = True, datetimenow = ''t0''\<rparr>, App_xinput))) \<and>
   effects (fst (mainloop
      [(\<lparr>clock = 1, screen = None, clipboard_free = True, datetimenow = ''t1''\<rparr>, None, Toggle_poll),
       (\<lparr>clock = 1, screen = None, clipboard_free = True, datetimenow = ''t1''\<rparr>,
          Some (MappedStates_default\<lparr>PacketNumber := 1, LeftTrigger := 255, RightTrigger := 255\<rparr>), Timer),
       (\<lparr>clock = 1, screen = None, clipboard_free = True, datetimenow = ''t1''\<rparr>, None, Toggle_poll)]
      (App_init \<lparr>clock = 0, screen = None, clipboard_free = True, datetimenow = ''t0''\<rparr>, App_xinput)))
     = [Beep] \<and>
   effects (fst (mainloop
      [(\<lparr>clock = 1, screen = None, clipboard_free = True, datetimenow = ''t1''\<rparr>, None, Toggle_poll),
       (\<lparr>clock = 1, screen = None, clipboard_free = True, datetimenow = ''t1''\<rparr>,
          Some (MappedStates_default\<lparr>PacketNumber := 1, LeftTrigger := 255, RightTrigger := 255\<rparr>), Timer),
       (\<lparr>clock = 1, screen = None, clipboard_free = True, datetimenow = ''t1''\<rparr>, None, Toggle_poll),
       (\<lparr>clock = 2, screen = Some (Pixels 1), clipboard_free = True, datetimenow = ''t2''\<rparr>, None, Toggle_poll)]
      (App_init \<lparr>clock = 0, screen = None, clipboard_free = True, datetimenow = ''t0''\<rparr>, App_xinput)))
     = [Beep, Beep, Grab (Pixels 1), Copy (Pixels 1)] \<and>
   items (images (fst (mainloop
      [(\<lparr>clock = 1, screen = None, clipboard_free = True, datetimenow = ''t1''\<rparr>, None, Toggle_poll),
       (\<lparr>clock = 1, screen = None, clipboard_free = True, datetimenow = ''t1''\<rparr>,
          Some (MappedStates_default\<lparr>PacketNumber := 1, LeftTrigger := 255, RightTrigger := 255\<rparr>), Timer),
       (\<lparr>clock = 1, screen = None, clipboard_free = True, datetimenow = ''t1''\<rparr>, None, Toggle_poll),
       (\<lparr>clock = 2, screen = Some (Pixels 1), clipboard_free = True, datetimenow = ''t2''\<rparr>, None, Toggle_poll)]
      (App_init \<lparr>clock = 0, screen = None, clipboard_free = True, datetimenow = ''t0''\<rparr>, App_xinput))))
     = [\<lparr>filename = ''PrtSc t2'', truemage = Pixels 1, pinnation = False\<rparr>]"
  by (simp add: run_defs)

text \<open>
  Claim C5, amended. Turning polling off calls no handler and leaves the \<open>XInput\<close>
  object, its queue included, as it is: nothing is drained and nothing is discarded. An
  update that returns without an exception leaves the queue empty, so an event is still
  queued when polling is turned off only if a handler raised before.
\<close>

theorem polling_off_keeps_queue:
  "(xinput_poll a \<longrightarrow>
      (\<exists>r a'. toggle_xinput_poll polled (a, x) = (r, a', x) \<and>
         effects a' = effects a \<and> images a' = images a \<and> \<not> xinput_poll a')) \<and>
   (update x polled a = (None, x', a'') \<longrightarrow> event_queue x' = [])"
proof (intro conjI impI)
  assume "xinput_poll a"
  then show "\<exists>r a'. toggle_xinput_poll polled (a, x) = (r, a', x) \<and>
         effects a' = effects a \<and> images a' = images a \<and> \<not> xinput_poll a'"
    by (cases "xinput_polling_id a") (simp_all add: toggle_xinput_poll_def poll_for_xinput_def)
next
  assume "update x polled a = (None, x', a'')"
  then show "event_queue x' = []"
    by (auto simp: update_def handle_events_def split: prod.splits dest: drain_queue_returns_empty)
qed

theorem polling_off_keeps_queue_witness:
  "xinput_poll ((App_init \<lparr>clock = 0, screen = None, clipboard_free = True, datetimenow = ''t0''\<rparr>)
         \<lparr>xinput_poll := True, xinput_polling_id := Some 0\<rparr>) \<and>
   snd (snd (toggle_xinput_poll None
      ((App_init \<lparr>clock = 0, screen = None, clipboard_free = True, datetimenow = ''t0''\<rparr>)
         \<lparr>xinput_poll := True, xinput_polling_id := Some 0\<rparr>,
       App_xinput\<lparr>event_queue := [mk_Event ''press'' ''RightTrigger'']\<rparr>)))
     = App_xinput\<lparr>event_queue := [mk_Event ''press'' ''RightTrigger'']\<rparr> \<and>
   update App_xinput
      (Some (MappedStates_default\<lparr>PacketNumber := 1, LeftTrigger := 255, RightTrigger := 254\<rparr>))
      (App_init \<lparr>clock = 0, screen = None, clipboard_free = True, datetimenow = ''t0''\<rparr>)
     = (None,
        App_xinput\<lparr>event_queue := [],
          prev_states := MappedStates_default\<lparr>PacketNumber := 1, LeftTrigger := 255, RightTrigger := 254\<rparr>\<rparr>,
        App_init \<lparr>clock = 0, screen = None, clipboard_free = True, datetimenow = ''t0''\<rparr>) \<and>
   event_queue (App_xinput\<lparr>event_queue := [],
          prev_states := MappedStates_default\<lparr>PacketNumber := 1, LeftTrigger := 255, RightTrigger := 254\<rparr>\<rparr>)
     = []"
proof -
  let ?ini = "App_init \<lparr>clock = 0, screen = None, clipboard_free = True, datetimenow = ''t0''\<rparr>"
  let ?a = "?ini\<lparr>xinput_poll := True, xinput_polling_id := Some 0\<rparr>"
  let ?x = "App_xinput\<lparr>event_queue := [mk_Event ''press'' ''RightTrigger'']\<rparr>"
  let ?one = "MappedStates_default\<lparr>PacketNumber := 1, LeftTrigger := 255, RightTrigger := 254\<rparr>"
  have on: "xinput_poll ?a" by simp
  from polling_off_keeps_queue
         [where a = ?a and x = ?x and polled = None and x' = ?x and a'' = ?a] on
  obtain r a' where "toggle_xinput_poll None (?a, ?x) = (r, a', ?x)" by blast
  then have off: "snd (snd (toggle_xinput_poll None (?a, ?x))) = ?x" by simp
  have upd: "update App_xinput (Some ?one) ?ini
      = (None, App_xinput\<lparr>event_queue := [], prev_states := ?one\<rparr>, ?ini)"
    by (simp add: run_defs)
  from polling_off_keeps_queue
         [where x = App_xinput and polled = "Some ?one" and a = ?ini
            and x' = "App_xinput\<lparr>event_queue := [], prev_states := ?one\<rparr>" and a'' = ?ini] upd
  have emp: "event_queue (App_xinput\<lparr>event_queue := [], prev_states := ?one\<rparr>) = []"
    by blast
  show ?thesis using on off upd emp by (intro conjI)
qed

end
